theory Spec2Isabelle
  imports Main "HOL-Library.Word"
begin

section \<open>The voice bridge (voice\_bridge.py)\<close>

text \<open>
  The bridge is one Python script: a signal handler \<open>cleanup\<close>, and \<open>main\<close>, which
  installs the handler, connects the RT-STT client, registers two callbacks and then
  waits in an endless loop. \<open>main\<close> never returns, so it is modelled as a transition
  system: the state holds the program counter of the main thread (the source line of the
  next statement), the global \<open>client\<close>, the bytes written to stdout (as the list of
  messages handed to \<open>json.dumps\<close>), the log of the operations invoked on the client, and
  whether the process still runs. The environment drives it with events: the main thread
  executes its next statement, a signal arrives, or the client library calls one of the
  registered callbacks.
\<close>

subsection \<open>Values and messages\<close>

text \<open>A Python number: an \<open>int\<close>, or a \<open>float\<close> given by its IEEE-754 binary64 bit pattern.\<close>

datatype number = PyInt int | PyFloat "64 word"

datatype jval = JStr string | JNum number | JBool bool

text \<open>
  A message is the dict literal handed to \<open>json.dumps\<close>, in insertion order. One entry of
  the output stands for one \<open>sys.stdout.write((json.dumps(d) + "\n").encode('utf-8'))\<close>
  followed by \<open>sys.stdout.flush()\<close>; writes to stdout are taken to succeed.
\<close>

type_synonym message = "(string \<times> jval) list"

definition ready_connected :: message where
  "ready_connected = [(''type'', JStr ''ready''), (''status'', JStr ''connected'')]"

definition ready_listening :: message where
  "ready_listening = [(''type'', JStr ''ready''), (''status'', JStr ''listening'')]"

definition error_message :: "string \<Rightarrow> message" where
  "error_message m = [(''type'', JStr ''error''), (''error'', JStr m)]"

text \<open>
  Modelled from the spec: the result object the RT-STT client passes to the transcription
  callback (the \<open>rt_stt\<close> package is not part of the repository). The output protocol
  types its attributes as text (string), confidence (number), language (string) and
  is\_final (boolean); an attribute the object does not have is \<open>None\<close> here.
\<close>

record transcription_result =
  res_text :: "string option"
  res_confidence :: "number option"
  res_language :: "string option"
  res_is_final :: "bool option"

subsection \<open>Exceptions\<close>

text \<open>
  Exceptions of the main thread: \<open>SystemExit n\<close> is what \<open>sys.exit(n)\<close> raises (a
  \<open>BaseException\<close> that is not an \<open>Exception\<close>); \<open>Exception m\<close> is an instance of a
  subclass of \<open>Exception\<close> whose \<open>str()\<close> is \<open>m\<close>, the way a client operation fails.
\<close>

datatype exn = SystemExit int | Exception string

text \<open>The exception of a callback: reading an attribute the result object lacks.\<close>

datatype callback_exn = AttributeError string

subsection \<open>The client library and the process state\<close>

datatype rtstt_client = RTSTTClient

datatype client_op =
  Ctor | Connect | OnTranscription | OnError | Subscribe | StartListening
  | StopListening | Disconnect

text \<open>
  The client is a black box: \<open>b op history\<close> is what the operation \<open>op\<close> does when the
  operations in \<open>history\<close> were invoked before it: \<open>None\<close> when it returns, \<open>Some m\<close>
  when it raises an \<open>Exception\<close> with message \<open>m\<close>.
\<close>

type_synonym behaviour = "client_op \<Rightarrow> client_op list \<Rightarrow> string option"

datatype signal = SIGINT | SIGTERM

datatype status = Running | Exited int | Killed signal

text \<open>
  Program points of \<open>main\<close>, named by the source line of the next statement. \<open>L80\<close> is
  the body of the inner \<open>try\<close> (the blocking \<open>select.select\<close>), \<open>L82\<close> the \<open>pass\<close> of
  its handler, \<open>L77\<close> the loop head outside it; \<open>L85 m\<close> and \<open>L88\<close> are the handler
  of the outer \<open>try\<close>, entered with \<open>str(e) = m\<close>.
\<close>

datatype pc =
  L29 | L30 | L33 | L34 | L38 | L39 | L42 | L64 | L65 | L68 | L69 | L71 | L76
  | L77 | L80 | L82 | L85 string | L88

record state =
  pc :: pc
  handlers :: "signal set"
  client :: "rtstt_client option"
  transcription_cb :: bool
  error_cb :: bool
  calls :: "client_op list"
  out :: "message list"
  escaped :: "callback_exn list"
  status :: status

definition init :: state where
  "init = \<lparr>pc = L29, handlers = {}, client = None, transcription_cb = False,
     error_cb = False, calls = [], out = [], escaped = [], status = Running\<rparr>"

definition emit :: "message \<Rightarrow> state \<Rightarrow> state" where
  "emit msg s = s\<lparr>out := out s @ [msg]\<rparr>"

text \<open>Invoking a client operation: the call is logged, then it returns or raises.\<close>

definition client_call :: "behaviour \<Rightarrow> client_op \<Rightarrow> state \<Rightarrow> (exn + unit) \<times> state" where
  "client_call b op s =
     ((case b op (calls s) of None \<Rightarrow> Inr () | Some m \<Rightarrow> Inl (Exception m)),
      s\<lparr>calls := calls s @ [op]\<rparr>)"

definition sys_exit :: "int \<Rightarrow> state \<Rightarrow> (exn + unit) \<times> state" where
  "sys_exit n s = (Inl (SystemExit n), s)"

text \<open>\<open>try: body  except: pass\<close>: the bare clause catches every exception.\<close>

definition try_except_pass ::
  "(state \<Rightarrow> (exn + unit) \<times> state) \<Rightarrow> state \<Rightarrow> (exn + unit) \<times> state" where
  "try_except_pass body s = (case body s of (Inl e, s') \<Rightarrow> (Inr (), s') | (Inr u, s') \<Rightarrow> (Inr u, s'))"

definition seq ::
  "(state \<Rightarrow> (exn + unit) \<times> state) \<Rightarrow> (state \<Rightarrow> (exn + unit) \<times> state)
   \<Rightarrow> state \<Rightarrow> (exn + unit) \<times> state" where
  "seq f g s = (case f s of (Inl e, s') \<Rightarrow> (Inl e, s') | (Inr u, s') \<Rightarrow> g s')"

subsection \<open>cleanup (lines 14--23)\<close>

text \<open>
  \<open>cleanup(signum, frame)\<close>: the interpreter passes the signal number and the interrupted
  frame (given here by its program point), \<open>main\<close> passes \<open>None, None\<close>; the body reads
  neither. \<open>if client:\<close> is taken when the global holds the client object (an object
  without \<open>__bool__\<close> or \<open>__len__\<close> is true). The two client calls share one \<open>try\<close>.
\<close>

definition cleanup ::
  "behaviour \<Rightarrow> signal option \<Rightarrow> pc option \<Rightarrow> state \<Rightarrow> (exn + unit) \<times> state" where
  "cleanup b signum frame =
     seq (\<lambda>s. case client s of
                 None \<Rightarrow> (Inr (), s)
               | Some c \<Rightarrow> try_except_pass (seq (client_call b StopListening)
                                                (client_call b Disconnect)) s)
         (sys_exit 0)"

subsection \<open>The callbacks (lines 47--61)\<close>

text \<open>
  \<open>result.text\<close> and \<open>result.confidence\<close> raise \<open>AttributeError\<close> when the attribute is
  missing; \<open>getattr(result, name, default)\<close> yields the default instead. The dict
  display evaluates its values in order.
\<close>

definition getattr_default :: "'a option \<Rightarrow> 'a \<Rightarrow> 'a" where
  "getattr_default attr d = (case attr of None \<Rightarrow> d | Some v \<Rightarrow> v)"

definition on_transcription ::
  "transcription_result \<Rightarrow> state \<Rightarrow> (callback_exn + unit) \<times> state" where
  "on_transcription result s =
     (case res_text result of
        None \<Rightarrow> (Inl (AttributeError ''text''), s)
      | Some t \<Rightarrow>
          (case res_confidence result of
             None \<Rightarrow> (Inl (AttributeError ''confidence''), s)
           | Some c \<Rightarrow>
               (Inr (), emit [(''type'', JStr ''transcription''),
                              (''text'', JStr t),
                              (''confidence'', JNum c),
                              (''language'', JStr (getattr_default (res_language result) ''en'')),
                              (''is_final'', JBool (getattr_default (res_is_final result) True))] s)))"

text \<open>The error object is given by its string representation \<open>str(error)\<close>.\<close>

definition on_error :: "string \<Rightarrow> state \<Rightarrow> (callback_exn + unit) \<times> state" where
  "on_error error s = (Inr (), emit (error_message error) s)"

subsection \<open>main (lines 25--88), one statement at a time\<close>

fun in_inner_try :: "pc \<Rightarrow> bool" where
  "in_inner_try L80 = True"
| "in_inner_try _ = False"

fun in_outer_try :: "pc \<Rightarrow> bool" where
  "in_outer_try L29 = False"
| "in_outer_try L30 = False"
| "in_outer_try L33 = False"
| "in_outer_try L34 = False"
| "in_outer_try (L85 m) = False"
| "in_outer_try L88 = False"
| "in_outer_try _ = True"

text \<open>
  An exception raised in the main thread at the current program point. Inside the inner
  \<open>try\<close> the bare \<open>except:\<close> catches it and the loop goes on with \<open>pass\<close>. Elsewhere inside
  the outer \<open>try\<close>, \<open>except Exception as e\<close> catches an \<open>Exception\<close> and lets
  \<open>SystemExit\<close> through. An exception that leaves \<open>main\<close> ends the process: with the code
  of the \<open>SystemExit\<close>, or with code 1 after the traceback of an uncaught \<open>Exception\<close>.
  When \<open>main\<close> returns the script is over and the process ends with code 0.
\<close>

definition propagate :: "exn \<Rightarrow> state \<Rightarrow> state" where
  "propagate e s =
     (if in_inner_try (pc s) then s\<lparr>pc := L82\<rparr>
      else if in_outer_try (pc s) then
        (case e of Exception m \<Rightarrow> s\<lparr>pc := L85 m\<rparr>
                 | SystemExit n \<Rightarrow> s\<lparr>status := Exited n\<rparr>)
      else
        (case e of SystemExit n \<Rightarrow> s\<lparr>status := Exited n\<rparr>
                 | Exception m \<Rightarrow> s\<lparr>status := Exited 1\<rparr>))"

text \<open>A statement that may raise: on return continue at \<open>next\<close>, else propagate.\<close>

definition finish :: "pc \<Rightarrow> (exn + unit) \<times> state \<Rightarrow> state" where
  "finish next r = (case r of (Inl e, s') \<Rightarrow> propagate e s' | (Inr u, s') \<Rightarrow> s'\<lparr>pc := next\<rparr>)"

fun main_step :: "behaviour \<Rightarrow> pc \<Rightarrow> state \<Rightarrow> state" where
  "main_step b L29 s = s\<lparr>handlers := insert SIGINT (handlers s), pc := L30\<rparr>"
| "main_step b L30 s = s\<lparr>handlers := insert SIGTERM (handlers s), pc := L33\<rparr>"
| "main_step b L33 s = s\<lparr>pc := L34\<rparr>"
| "main_step b L34 s = s\<lparr>pc := L38\<rparr>"
| "main_step b L38 s =
     finish L39 (case client_call b Ctor s of
                   (Inl e, s') \<Rightarrow> (Inl e, s')
                 | (Inr u, s') \<Rightarrow> (Inr u, s'\<lparr>client := Some RTSTTClient\<rparr>))"
| "main_step b L39 s = finish L42 (client_call b Connect s)"
| "main_step b L42 s = (emit ready_connected s)\<lparr>pc := L64\<rparr>"
| "main_step b L64 s =
     finish L65 (case client_call b OnTranscription s of
                   (Inl e, s') \<Rightarrow> (Inl e, s')
                 | (Inr u, s') \<Rightarrow> (Inr u, s'\<lparr>transcription_cb := True\<rparr>))"
| "main_step b L65 s =
     finish L68 (case client_call b OnError s of
                   (Inl e, s') \<Rightarrow> (Inl e, s')
                 | (Inr u, s') \<Rightarrow> (Inr u, s'\<lparr>error_cb := True\<rparr>))"
| "main_step b L68 s = finish L69 (client_call b Subscribe s)"
| "main_step b L69 s = finish L71 (client_call b StartListening s)"
| "main_step b L71 s = (emit ready_listening s)\<lparr>pc := L76\<rparr>"
| "main_step b L76 s = s\<lparr>pc := L77\<rparr>"
| "main_step b L77 s = s\<lparr>pc := L80\<rparr>"
| "main_step b L80 s = s"
| "main_step b L82 s = s\<lparr>pc := L77\<rparr>"
| "main_step b (L85 m) s = (emit (error_message m) s)\<lparr>pc := L88\<rparr>"
| "main_step b L88 s =
     (case cleanup b None None s of
        (Inl e, s') \<Rightarrow> propagate e s'
      | (Inr u, s') \<Rightarrow> s'\<lparr>status := Exited 0\<rparr>)"

subsection \<open>Events\<close>

text \<open>
  \<open>Tick\<close>: the main thread executes the statement at its program point (at \<open>L80\<close> it
  stays blocked in \<open>select.select([], [], [])\<close>). \<open>Signal\<close>: a signal arrives; Python
  runs the handler in the main thread, before the statement at the program point or,
  at \<open>L80\<close>, inside the interrupted \<open>select\<close> call, so what the handler raises is raised
  there. A signal whose handler is not yet installed ends the process.
  \<open>TranscriptionEvent\<close>, \<open>ErrorEvent\<close>: the client library calls the callback it was
  given, if any; an exception of the callback goes back to the library.
\<close>

datatype event =
  Tick | Signal signal | TranscriptionEvent transcription_result | ErrorEvent string

definition deliver :: "(callback_exn + unit) \<times> state \<Rightarrow> state" where
  "deliver r = (case r of (Inl e, s') \<Rightarrow> s'\<lparr>escaped := escaped s' @ [e]\<rparr> | (Inr u, s') \<Rightarrow> s')"

definition handle_signal :: "behaviour \<Rightarrow> signal \<Rightarrow> state \<Rightarrow> state" where
  "handle_signal b sig s =
     (if sig \<in> handlers s then finish (pc s) (cleanup b (Some sig) (Some (pc s)) s)
      else s\<lparr>status := Killed sig\<rparr>)"

definition step :: "behaviour \<Rightarrow> event \<Rightarrow> state \<Rightarrow> state" where
  "step b ev s =
     (if status s \<noteq> Running then s
      else case ev of
        Tick \<Rightarrow> main_step b (pc s) s
      | Signal sig \<Rightarrow> handle_signal b sig s
      | TranscriptionEvent r \<Rightarrow> (if transcription_cb s then deliver (on_transcription r s) else s)
      | ErrorEvent e \<Rightarrow> (if error_cb s then deliver (on_error e s) else s))"

fun run :: "behaviour \<Rightarrow> event list \<Rightarrow> state \<Rightarrow> state" where
  "run b [] s = s"
| "run b (ev # evs) s = run b evs (step b ev s)"

subsection \<open>Concrete clients, events and states\<close>

definition all_ok :: behaviour where
  "all_ok op h = None"

text \<open>\<open>stop_listening\<close> raises the first time it is invoked and returns afterwards.\<close>

definition stop_fails_once :: behaviour where
  "stop_fails_once op h =
     (if op = StopListening \<and> StopListening \<notin> set h then Some ''not listening'' else None)"


text \<open>The event of the spec's scenario; \<open>0x3FED70A3D70A3D71\<close> is the double \<open>0.92\<close>.\<close>

definition hello_world :: transcription_result where
  "hello_world = \<lparr>res_text = Some ''hello world'',
     res_confidence = Some (PyFloat 0x3FED70A3D70A3D71),
     res_language = None, res_is_final = None\<rparr>"

definition no_text :: transcription_result where
  "no_text = \<lparr>res_text = None, res_confidence = Some (PyFloat 0x3FED70A3D70A3D71),
     res_language = Some ''en'', res_is_final = Some True\<rparr>"

text \<open>The state of a bridge that started without failure and waits in \<open>select\<close>.\<close>

definition listening_state :: state where
  "listening_state = \<lparr>pc = L80, handlers = {SIGTERM, SIGINT}, client = Some RTSTTClient,
     transcription_cb = True, error_cb = True,
     calls = [Ctor, Connect, OnTranscription, OnError, Subscribe, StartListening],
     out = [ready_connected, ready_listening], escaped = [], status = Running\<rparr>"

subsection \<open>Predicates used in the proofs\<close>

text \<open>Program points at which the global \<open>client\<close> can still be \<open>None\<close>.\<close>

fun before_client :: "pc \<Rightarrow> bool" where
  "before_client L29 = True"
| "before_client L30 = True"
| "before_client L33 = True"
| "before_client L34 = True"
| "before_client L38 = True"
| "before_client (L85 m) = True"
| "before_client L88 = True"
| "before_client _ = False"

text \<open>The order of the two ready lines: every "listening" line has a "connected" line before it.\<close>

definition ordered :: "message list \<Rightarrow> bool" where
  "ordered xs \<longleftrightarrow>
     (\<forall>pre post. xs = pre @ ready_listening # post \<longrightarrow> ready_connected \<in> set pre)"

text \<open>Program points between the write of "connected" and the write of "listening".\<close>

fun after_connected :: "pc \<Rightarrow> bool" where
  "after_connected L64 = True"
| "after_connected L65 = True"
| "after_connected L68 = True"
| "after_connected L69 = True"
| "after_connected L71 = True"
| "after_connected _ = False"

definition ready_inv :: "state \<Rightarrow> bool" where
  "ready_inv s \<longleftrightarrow>
     ordered (out s) \<and> (after_connected (pc s) \<longrightarrow> ready_connected \<in> set (out s))"






section \<open>Properties\<close>

lemmas step_simps = step_def handle_signal_def deliver_def finish_def propagate_def
  cleanup_def seq_def try_except_pass_def sys_exit_def client_call_def emit_def
  on_error_def on_transcription_def getattr_default_def init_def

lemma listening_state_reached:
  "run all_ok (replicate 14 Tick) init = listening_state"
  by (simp add: listening_state_def step_simps all_ok_def numeral_eq_Suc)

text \<open>
  Whatever the client does, \<open>cleanup\<close> leaves by the \<open>SystemExit\<close> of \<open>sys.exit(0)\<close>,
  having changed nothing but the log of client calls.
\<close>

lemma cleanup_shape:
  "\<exists>cs. cleanup b sg fr s = (Inl (SystemExit 0), s\<lparr>calls := calls s @ cs\<rparr>)"
proof (cases "client s")
  case None
  then have "cleanup b sg fr s = (Inl (SystemExit 0), s\<lparr>calls := calls s @ []\<rparr>)"
    by (simp add: cleanup_def seq_def sys_exit_def)
  then show ?thesis by (rule exI)
next
  case (Some c)
  show ?thesis
  proof (cases "b StopListening (calls s)")
    case None
    with Some have "cleanup b sg fr s =
        (Inl (SystemExit 0), s\<lparr>calls := calls s @ [StopListening, Disconnect]\<rparr>)"
      by (simp add: cleanup_def seq_def sys_exit_def try_except_pass_def client_call_def
               split: option.split)
    then show ?thesis by (rule exI)
  next
    case (Some m)
    with \<open>client s = Some c\<close>
    have "cleanup b sg fr s = (Inl (SystemExit 0), s\<lparr>calls := calls s @ [StopListening]\<rparr>)"
      by (simp add: cleanup_def seq_def sys_exit_def try_except_pass_def client_call_def)
    then show ?thesis by (rule exI)
  qed
qed

text \<open>
  A handled signal: the \<open>SystemExit\<close> of the handler ends the process, except inside the
  inner \<open>try\<close>, where the bare \<open>except:\<close> catches it and the loop goes on.
\<close>

lemma handle_signal_handled:
  assumes "sig \<in> handlers s"
  shows "\<exists>cs. handle_signal b sig s =
           (if in_inner_try (pc s) then s\<lparr>calls := calls s @ cs, pc := L82\<rparr>
            else s\<lparr>calls := calls s @ cs, status := Exited 0\<rparr>)"
proof -
  obtain cs where c: "cleanup b (Some sig) (Some (pc s)) s =
      (Inl (SystemExit 0), s\<lparr>calls := calls s @ cs\<rparr>)"
    using cleanup_shape by blast
  have "handle_signal b sig s =
           (if in_inner_try (pc s) then s\<lparr>calls := calls s @ cs, pc := L82\<rparr>
            else s\<lparr>calls := calls s @ cs, status := Exited 0\<rparr>)"
    using assms by (simp add: handle_signal_def c finish_def propagate_def)
  then show ?thesis by (rule exI)
qed

lemma run_invariant:
  assumes "\<And>s ev. P s \<Longrightarrow> P (step b ev s)" and "P s"
  shows "P (run b evs s)"
  using assms(2) by (induction evs arbitrary: s) (simp_all add: assms(1))

subsection \<open>The transcription callback\<close>

text \<open>
  C2. For a transcription event that has a text and a confidence, the callback returns
  after writing exactly one message (and that is all a delivery of the event to a running
  bridge does): its type is "transcription", its text and confidence
  are the event's values unchanged, its language is the event's language when the event
  has one and "en" otherwise, and its is\_final is the event's is\_final when the event has
  one and true otherwise.
\<close>

theorem on_transcription_message:
  assumes "res_text r = Some t" and "res_confidence r = Some c"
  shows "\<exists>msg. on_transcription r s = (Inr (), s\<lparr>out := out s @ [msg]\<rparr>)
           \<and> (status s = Running \<and> transcription_cb s \<longrightarrow>
                 step b (TranscriptionEvent r) s = s\<lparr>out := out s @ [msg]\<rparr>)
           \<and> map fst msg = [''type'', ''text'', ''confidence'', ''language'', ''is_final'']
           \<and> map_of msg ''type'' = Some (JStr ''transcription'')
           \<and> map_of msg ''text'' = Some (JStr t)
           \<and> map_of msg ''confidence'' = Some (JNum c)
           \<and> map_of msg ''language'' =
                 Some (JStr (case res_language r of None \<Rightarrow> ''en'' | Some l \<Rightarrow> l))
           \<and> map_of msg ''is_final'' =
                 Some (JBool (case res_is_final r of None \<Rightarrow> True | Some f \<Rightarrow> f))"
proof -
  let ?msg = "[(''type'', JStr ''transcription''), (''text'', JStr t),
               (''confidence'', JNum c),
               (''language'', JStr (getattr_default (res_language r) ''en'')),
               (''is_final'', JBool (getattr_default (res_is_final r) True))]"
  have "on_transcription r s = (Inr (), s\<lparr>out := out s @ [?msg]\<rparr>)"
    using assms by (simp add: on_transcription_def emit_def)
  then show ?thesis
    by (intro exI [of _ ?msg]) (simp add: getattr_default_def step_def deliver_def)
qed

theorem on_transcription_message_witness:
  "res_text hello_world = Some ''hello world''
   \<and> res_confidence hello_world = Some (PyFloat 0x3FED70A3D70A3D71)
   \<and> status listening_state = Running \<and> transcription_cb listening_state
   \<and> step all_ok (TranscriptionEvent hello_world) listening_state =
     listening_state\<lparr>out := [ready_connected, ready_listening,
        [(''type'', JStr ''transcription''), (''text'', JStr ''hello world''),
         (''confidence'', JNum (PyFloat 0x3FED70A3D70A3D71)),
         (''language'', JStr ''en''), (''is_final'', JBool True)]]\<rparr>"
  using on_transcription_message
          [of hello_world "''hello world''" "PyFloat 0x3FED70A3D70A3D71" listening_state all_ok]
  by (auto simp add: hello_world_def listening_state_def)

text \<open>
  C10. A transcription event without a text or without a confidence makes the callback
  raise \<open>AttributeError\<close> (for the first missing attribute) whatever its language and
  is\_final are; nothing is written, and when the client library delivers such an event
  the exception goes back to the library.
\<close>

theorem missing_text_or_confidence_raises:
  assumes "res_text r = None \<or> res_confidence r = None"
  shows "on_transcription r s =
           (Inl (AttributeError (if res_text r = None then ''text'' else ''confidence'')), s)
         \<and> (status s = Running \<and> transcription_cb s \<longrightarrow>
              step b (TranscriptionEvent r) s =
                s\<lparr>escaped := escaped s @
                   [AttributeError (if res_text r = None then ''text'' else ''confidence'')]\<rparr>)"
  using assms
  by (auto simp add: on_transcription_def step_def deliver_def split: option.splits)

theorem missing_text_or_confidence_raises_witness:
  "(res_text no_text = None \<or> res_confidence no_text = None)
   \<and> status listening_state = Running \<and> transcription_cb listening_state
   \<and> on_transcription no_text listening_state = (Inl (AttributeError ''text''), listening_state)
   \<and> step all_ok (TranscriptionEvent no_text) listening_state =
        listening_state\<lparr>escaped := [AttributeError ''text'']\<rparr>
   \<and> out (step all_ok (TranscriptionEvent no_text) listening_state) =
        [ready_connected, ready_listening]"
  using missing_text_or_confidence_raises [of no_text listening_state all_ok]
  by (simp add: listening_state_def no_text_def)

subsection \<open>The error callback\<close>

text \<open>
  C7. While the process runs and the error callback is registered, an error event makes
  the bridge write exactly one message, of type "error" with the string representation
  of the event, and changes nothing else: the process keeps running at the same program
  point and no client operation is invoked.
\<close>

theorem on_error_reports_and_continues:
  assumes "status s = Running" and "error_cb s"
  shows "step b (ErrorEvent e) s =
           s\<lparr>out := out s @ [[(''type'', JStr ''error''), (''error'', JStr e)]]\<rparr>"
  using assms by (simp add: step_def deliver_def on_error_def emit_def error_message_def)

theorem on_error_reports_and_continues_witness:
  "status listening_state = Running \<and> error_cb listening_state
   \<and> step all_ok (ErrorEvent ''audio device lost'') listening_state =
       listening_state\<lparr>out := [ready_connected, ready_listening,
                                [(''type'', JStr ''error''), (''error'', JStr ''audio device lost'')]]\<rparr>
   \<and> status (step all_ok (ErrorEvent ''audio device lost'') listening_state) = Running"
  using on_error_reports_and_continues [of listening_state all_ok "''audio device lost''"]
  by (simp add: listening_state_def)

subsection \<open>cleanup\<close>

text \<open>
  Whatever the client does and whoever calls it (the interpreter with a signal and a frame,
  or \<open>main\<close> with \<open>None, None\<close>), \<open>cleanup\<close> raises nothing but the \<open>SystemExit\<close> of
  its final \<open>sys.exit(0)\<close>, and leaves the output and everything else but the log of client
  calls as it was.
\<close>

lemma cleanup_raises_only_SystemExit_0:
  "fst (cleanup b signum frame s) = Inl (SystemExit 0)
   \<and> (snd (cleanup b signum frame s))\<lparr>calls := calls s\<rparr> = s"
proof -
  obtain cs where "cleanup b signum frame s = (Inl (SystemExit 0), s\<lparr>calls := calls s @ cs\<rparr>)"
    using cleanup_shape by blast
  then show ?thesis by simp
qed

text \<open>
  When the client is set and \<open>stop_listening\<close> raises, one call of \<open>cleanup\<close> invokes
  \<open>stop_listening\<close> only: \<open>disconnect\<close> is not attempted before \<open>sys.exit(0)\<close>.
\<close>

lemma cleanup_stop_listening_raises:
  assumes "client s = Some c" and "b StopListening (calls s) = Some m"
  shows "cleanup b signum frame s =
           (Inl (SystemExit 0), s\<lparr>calls := calls s @ [StopListening]\<rparr>)"
  using assms
  by (simp add: cleanup_def seq_def sys_exit_def try_except_pass_def client_call_def)

text \<open>
  C4. \<open>cleanup\<close> does not always end by exiting the process. In a bridge that waits in
  \<open>select.select\<close> (line 80), for every behaviour of the client and either signal,
  \<open>cleanup\<close> suppresses the client's errors, writes nothing and reaches \<open>sys.exit(0)\<close>,
  but the \<open>SystemExit\<close> it raises is caught by the bare \<open>except:\<close> of lines 78--82: the
  process keeps running, at the \<open>pass\<close> of line 82.
\<close>

theorem cleanup_exit_swallowed_while_listening:
  "fst (cleanup b (Some sig) (Some L80) listening_state) = Inl (SystemExit 0)
   \<and> status (step b (Signal sig) listening_state) = Running
   \<and> pc (step b (Signal sig) listening_state) = L82
   \<and> out (step b (Signal sig) listening_state) = [ready_connected, ready_listening]"
proof -
  have h: "sig \<in> handlers listening_state"
    by (cases sig) (simp_all add: listening_state_def)
  obtain cs where "handle_signal b sig listening_state =
      (if in_inner_try (pc listening_state)
       then listening_state\<lparr>calls := calls listening_state @ cs, pc := L82\<rparr>
       else listening_state\<lparr>calls := calls listening_state @ cs, status := Exited 0\<rparr>)"
    using handle_signal_handled [OF h] by blast
  then have "step b (Signal sig) listening_state =
      listening_state\<lparr>calls := calls listening_state @ cs, pc := L82\<rparr>"
    by (simp add: step_def listening_state_def)
  moreover obtain cs' where "cleanup b (Some sig) (Some L80) listening_state =
      (Inl (SystemExit 0), listening_state\<lparr>calls := calls listening_state @ cs'\<rparr>)"
    using cleanup_shape by blast
  ultimately show ?thesis by (simp add: listening_state_def)
qed

text \<open>
  C9. A \<open>stop_listening\<close> failure does not make the process exit without a disconnect
  attempt. With a client whose \<open>stop_listening\<close> raises the first time, a \<open>SIGTERM\<close> in
  a bridge that waits in \<open>select.select\<close> (line 80) makes \<open>cleanup\<close> invoke
  \<open>stop_listening\<close> and skip \<open>disconnect\<close>, but the \<open>SystemExit\<close> is caught by the bare
  \<open>except:\<close> of lines 78--82 and the process keeps running; a second \<open>SIGTERM\<close> then
  invokes \<open>stop_listening\<close> and \<open>disconnect\<close>, and the process still runs.
\<close>

theorem stop_listening_failure_does_not_exit:
  "stop_fails_once StopListening (calls listening_state) = Some ''not listening''
   \<and> cleanup stop_fails_once (Some SIGTERM) (Some L80) listening_state =
        (Inl (SystemExit 0), listening_state\<lparr>calls := calls listening_state @ [StopListening]\<rparr>)
   \<and> step stop_fails_once (Signal SIGTERM) listening_state =
        listening_state\<lparr>calls := calls listening_state @ [StopListening], pc := L82\<rparr>
   \<and> status (step stop_fails_once (Signal SIGTERM) listening_state) = Running
   \<and> run stop_fails_once [Signal SIGTERM, Tick, Tick, Signal SIGTERM] listening_state =
        listening_state\<lparr>calls := calls listening_state
                            @ [StopListening, StopListening, Disconnect], pc := L82\<rparr>"
  by (simp add: listening_state_def step_simps stop_fails_once_def)

subsection \<open>Signals\<close>

lemma client_inv_step:
  assumes "client s = None \<longrightarrow> before_client (pc s)"
  shows "client (step b ev s) = None \<longrightarrow> before_client (pc (step b ev s))"
proof (cases "status s = Running")
  case False
  then show ?thesis using assms by (simp add: step_def)
next
  case True
  show ?thesis
  proof (cases ev)
    case Tick
    show ?thesis
      using assms True Tick cleanup_shape [of b None None s]
      by (cases "pc s")
         (auto simp add: step_def finish_def propagate_def client_call_def emit_def
               split: option.splits)
  next
    case (Signal sig)
    show ?thesis
    proof (cases "sig \<in> handlers s")
      case h: True
      from handle_signal_handled [OF h, of b] obtain cs where
        "handle_signal b sig s =
           (if in_inner_try (pc s) then s\<lparr>calls := calls s @ cs, pc := L82\<rparr>
            else s\<lparr>calls := calls s @ cs, status := Exited 0\<rparr>)" ..
      then show ?thesis using assms True Signal
        by (cases "pc s") (auto simp add: step_def)
    next
      case False
      then show ?thesis using assms True Signal
        by (simp add: step_def handle_signal_def)
    qed
  next
    case (TranscriptionEvent r)
    then show ?thesis using assms True
      by (auto simp add: step_def deliver_def on_transcription_def emit_def split: option.splits)
  next
    case (ErrorEvent e)
    then show ?thesis using assms True
      by (auto simp add: step_def deliver_def on_error_def emit_def)
  qed
qed

lemma client_inv_reachable:
  "client (run b evs init) = None \<longrightarrow> before_client (pc (run b evs init))"
  by (rule run_invariant [where P = "\<lambda>s. client s = None \<longrightarrow> before_client (pc s)"])
     (simp_all add: client_inv_step init_def)

text \<open>
  C8. In every reachable state in which the process runs, the global \<open>client\<close> is still
  \<open>None\<close> and \<open>cleanup\<close> is installed for the signal, the signal makes \<open>cleanup\<close> go
  straight to \<open>sys.exit(0)\<close>: no client operation is invoked, nothing is written, and the
  process exits with code 0.
\<close>

theorem signal_before_client_constructed:
  assumes "s = run b evs init" and "client s = None" and "status s = Running"
    and "sig \<in> handlers s"
  shows "cleanup b (Some sig) (Some (pc s)) s = (Inl (SystemExit 0), s)
         \<and> step b (Signal sig) s = s\<lparr>status := Exited 0\<rparr>"
proof -
  have bc: "before_client (pc s)"
    using assms(1,2) client_inv_reachable [of b evs] by simp
  have c: "cleanup b sg fr s = (Inl (SystemExit 0), s)" for sg fr
    using assms(2) by (simp add: cleanup_def seq_def sys_exit_def)
  have "step b (Signal sig) s = s\<lparr>status := Exited 0\<rparr>"
    using assms(3,4) bc
    by (cases "pc s") (simp_all add: step_def handle_signal_def c finish_def propagate_def)
  with c show ?thesis by simp
qed

theorem signal_before_client_constructed_witness:
  "client (run all_ok [Tick, Tick, Tick] init) = None
   \<and> status (run all_ok [Tick, Tick, Tick] init) = Running
   \<and> SIGTERM \<in> handlers (run all_ok [Tick, Tick, Tick] init)
   \<and> step all_ok (Signal SIGTERM) (run all_ok [Tick, Tick, Tick] init) =
       \<lparr>pc = L34, handlers = {SIGTERM, SIGINT}, client = None, transcription_cb = False,
        error_cb = False, calls = [], out = [], escaped = [], status = Exited 0\<rparr>"
  using signal_before_client_constructed
          [of "run all_ok [Tick, Tick, Tick] init" all_ok "[Tick, Tick, Tick]" SIGTERM]
  by (simp add: step_def init_def)

text \<open>
  C1. A bridge whose startup succeeded has written the "listening" line and is blocked in
  \<open>select.select\<close> (line 80). A \<open>SIGTERM\<close> there runs \<open>cleanup\<close>, which stops and
  disconnects the client, but the \<open>SystemExit\<close> of \<open>sys.exit(0)\<close> is raised inside the
  \<open>try\<close> of lines 78--82 and its bare \<open>except:\<close> swallows it: the process keeps running,
  a second signal fares no better, and an error event the client delivers afterwards is
  still written.
\<close>

theorem signal_while_listening_is_swallowed:
  "run all_ok (replicate 14 Tick) init = listening_state
   \<and> out listening_state = [ready_connected, ready_listening]
   \<and> step all_ok (Signal SIGTERM) listening_state =
       listening_state\<lparr>calls := calls listening_state @ [StopListening, Disconnect], pc := L82\<rparr>
   \<and> status (step all_ok (Signal SIGTERM) listening_state) = Running
   \<and> run all_ok [Signal SIGTERM, Tick, Tick, Signal SIGINT, Tick, Tick] listening_state =
       listening_state\<lparr>calls := calls listening_state
                           @ [StopListening, Disconnect, StopListening, Disconnect]\<rparr>
   \<and> out (run all_ok [Signal SIGTERM, ErrorEvent ''late''] listening_state) =
       [ready_connected, ready_listening, error_message ''late'']"
  by (simp add: listening_state_def step_simps all_ok_def numeral_eq_Suc)

subsection \<open>The order of the ready lines\<close>

lemma ordered_Nil: "ordered []"
  by (simp add: ordered_def)

lemma ordered_snoc:
  assumes "ordered xs" and "m = ready_listening \<longrightarrow> ready_connected \<in> set xs"
  shows "ordered (xs @ [m])"
  unfolding ordered_def
proof (intro allI impI)
  fix pre post
  assume eq: "xs @ [m] = pre @ ready_listening # post"
  show "ready_connected \<in> set pre"
  proof (cases post rule: rev_cases)
    case Nil
    with eq have "pre = xs" and "m = ready_listening" by simp_all
    with assms(2) show ?thesis by simp
  next
    case (snoc post' y)
    with eq have "xs = pre @ ready_listening # post'" by simp
    with assms(1) show ?thesis by (simp add: ordered_def)
  qed
qed

lemma ready_inv_step:
  assumes "ready_inv s"
  shows "ready_inv (step b ev s)"
proof (cases "status s = Running")
  case False
  then show ?thesis using assms by (simp add: step_def)
next
  case True
  have o: "ordered (out s)" and a: "after_connected (pc s) \<longrightarrow> ready_connected \<in> set (out s)"
    using assms by (simp_all add: ready_inv_def)
  show ?thesis
  proof (cases ev)
    case Tick
    obtain cs where c: "cleanup b None None s = (Inl (SystemExit 0), s\<lparr>calls := calls s @ cs\<rparr>)"
      using cleanup_shape by blast
    have o1: "ordered (out s @ [ready_connected])"
      using o by (rule ordered_snoc) (simp add: ready_connected_def ready_listening_def)
    have o2: "ordered (out s @ [error_message m])" for m
      using o by (rule ordered_snoc) (simp add: error_message_def ready_listening_def)
    have o3: "ready_connected \<in> set (out s) \<Longrightarrow> ordered (out s @ [ready_listening])"
      using o by (rule ordered_snoc) simp
    show ?thesis
      using o a True Tick c o1 o2 o3
      by (cases "pc s")
         (auto simp add: ready_inv_def step_def finish_def propagate_def client_call_def emit_def
               split: option.splits)
  next
    case (Signal sig)
    show ?thesis
    proof (cases "sig \<in> handlers s")
      case h: True
      from handle_signal_handled [OF h, of b] obtain cs where
        "handle_signal b sig s =
           (if in_inner_try (pc s) then s\<lparr>calls := calls s @ cs, pc := L82\<rparr>
            else s\<lparr>calls := calls s @ cs, status := Exited 0\<rparr>)" ..
      then show ?thesis using o a True Signal
        by (cases "pc s") (auto simp add: ready_inv_def step_def)
    next
      case False
      then show ?thesis using o a True Signal
        by (simp add: ready_inv_def step_def handle_signal_def)
    qed
  next
    case (TranscriptionEvent r)
    have "ordered (out s @ [m])" if "m \<noteq> ready_listening" for m
      using o by (rule ordered_snoc) (simp add: that)
    then show ?thesis using o a True TranscriptionEvent
      by (auto simp add: ready_inv_def step_def deliver_def on_transcription_def emit_def
            ready_listening_def split: option.splits)
  next
    case (ErrorEvent e)
    have "ordered (out s @ [error_message e])"
      using o by (rule ordered_snoc) (simp add: error_message_def ready_listening_def)
    then show ?thesis using o a True ErrorEvent
      by (auto simp add: ready_inv_def step_def deliver_def on_error_def emit_def)
  qed
qed

lemma ready_inv_reachable: "ready_inv (run b evs init)"
  by (rule run_invariant [where P = ready_inv])
     (simp_all add: ready_inv_step, simp add: ready_inv_def init_def ordered_Nil)

text \<open>
  C6. In the output of every run, for every client and every sequence of events, each
  "listening" ready line has a "connected" ready line somewhere before it.
\<close>

theorem listening_never_before_connected:
  assumes "out (run b evs init) = pre @ ready_listening # post"
  shows "ready_connected \<in> set pre"
  using assms ready_inv_reachable [of b evs] by (simp add: ready_inv_def ordered_def)

theorem listening_never_before_connected_witness:
  "out (run all_ok (replicate 14 Tick) init) = [ready_connected] @ ready_listening # []
   \<and> ready_connected \<in> set [ready_connected]"
  using listening_never_before_connected [of all_ok "replicate 14 Tick" "[ready_connected]" "[]"]
  by (simp add: listening_state_reached listening_state_def)

subsection \<open>Connection failure\<close>










end
